theory Spec2Isabelle
  imports Main "HOL-Library.Sublist"
begin

section \<open>Strings of the Go runtime used by \<open>cmd/archive/main.go\<close>\<close>

text \<open>
  A Go \<open>string\<close> is a sequence of bytes; it is modelled as \<^typ>\<open>string\<close> (a list of
  \<^typ>\<open>char\<close>, one per byte). The separators the program cuts at (\<open>/\<close>, \<open>:\<close>) and joins
  with (\<open>,\<close>) are single bytes.

  \<open>strings.Index(s, sep)\<close> is the index of the first place where \<open>sep\<close> occurs in \<open>s\<close>,
  or \<open>-1\<close> (here \<open>None\<close>) when it does not occur.
\<close>

fun Index :: "string \<Rightarrow> string \<Rightarrow> nat option" where
  "Index s sep =
     (if prefix sep s then Some 0
      else case s of
             [] \<Rightarrow> None
           | _ # t \<Rightarrow> map_option Suc (Index t sep))"

declare Index.simps [simp del]

text \<open>
  \<open>strings.Cut(s, sep)\<close>:
  \<^verbatim>\<open>
  if i := Index(s, sep); i >= 0 {
      return s[:i], s[i+len(sep):], true
  }
  return s, "", false
  \<close>
\<close>

definition Cut :: "string \<Rightarrow> string \<Rightarrow> string \<times> string \<times> bool" where
  "Cut s sep =
     (case Index s sep of
        Some i \<Rightarrow> (take i s, drop (i + length sep) s, True)
      | None \<Rightarrow> (s, [], False))"

text \<open>
  \<open>strings.Split(s, sep)\<close> for a one-byte separator: the pieces of \<open>s\<close> between the
  occurrences of the separator, found from the left with \<open>Index\<close> as \<open>genSplit\<close> does;
  a string without the separator (the empty string too) is its own single piece. The
  program only joins; \<open>Split\<close> is the reader of the joined \<open>topics\<close> column.
\<close>

function Split :: "string \<Rightarrow> char \<Rightarrow> string list" where
  "Split s c =
     (case Index s [c] of
        None \<Rightarrow> [s]
      | Some m \<Rightarrow> take m s # Split (drop (m + length [c]) s) c)"
  by pat_completeness auto
termination
proof (relation "measure (\<lambda>(s, c). length s)")
  show "wf (measure (\<lambda>(s, c). length s))" by simp
next
  fix s :: string and c :: char and m :: nat
  assume found: "Index s [c] = Some m"
  have bound: "Index t [c] = Some i \<Longrightarrow> i < length t" for t i
  proof (induction t arbitrary: i)
    case Nil
    then show ?case by (simp add: Index.simps)
  next
    case (Cons x t)
    from Cons.prems
    have "i = 0 \<or> (\<exists>j. Index t [c] = Some j \<and> i = Suc j)"
      by (subst (asm) Index.simps) (auto split: if_splits)
    then show ?case by (auto dest: Cons.IH)
  qed
  from bound [OF found]
  show "((drop (m + length [c]) s, c), (s, c)) \<in> measure (\<lambda>(s, c). length s)"
    by simp
qed

declare Split.simps [simp del]

section \<open>The data model\<close>

text \<open>
  \<open>time.Time\<close> is a value of the standard library. The program only formats it, so it is
  modelled by what its accessors \<open>Date()\<close>, \<open>Clock()\<close>, \<open>Nanosecond()\<close> and \<open>Zone()\<close>
  return: the civil date and time of day in the value's own location, and that
  location's offset in seconds east of UTC.
\<close>

record Time =
  Year :: int
  Month :: nat
  Day :: nat
  Hour :: nat
  Minute :: nat
  Second :: nat
  Nanosecond :: nat
  ZoneOffset :: int

text \<open>The zero value \<open>time.Time{}\<close>: January 1 of year 1, 00:00:00 UTC.\<close>

definition zero_Time :: Time where
  "zero_Time =
     \<lparr>Year = 1, Month = 1, Day = 1, Hour = 0, Minute = 0, Second = 0, Nanosecond = 0,
      ZoneOffset = 0\<rparr>"

text \<open>Every \<open>time.Time\<close> has a month from 1 to 12 and a day of the month from 1 to 31.\<close>

definition calendar_Time :: "Time \<Rightarrow> bool" where
  "calendar_Time t \<longleftrightarrow> 1 \<le> Month t \<and> Month t \<le> 12 \<and> 1 \<le> Day t \<and> Day t \<le> 31"

text \<open>
  \<open>type data struct\<close> and \<open>type repo struct\<close>. \<open>ID\<close> is an \<open>int64\<close> that the program
  copies and never computes with; it is an \<^typ>\<open>int\<close>.
\<close>

record data =
  ID :: int
  FullName :: string
  Description :: string
  HTMLURL :: string
  Homepage :: string
  Topics :: "string list"
  CreatedAt :: Time
  UpdatedAt :: Time

record repo =
  Name :: string
  Data :: data

text \<open>The zero value of \<open>repo\<close> (\<open>var r repo\<close>).\<close>

definition zero_repo :: repo where
  "zero_repo =
     \<lparr>Name = [],
      Data = \<lparr>ID = 0, FullName = [], Description = [], HTMLURL = [], Homepage = [],
              Topics = [], CreatedAt = zero_Time, UpdatedAt = zero_Time\<rparr>\<rparr>"

text \<open>
  A row of the table \<open>repos\<close> without its serial \<open>id\<close>: the ten values that
  \<open>insertRepos\<close> binds to \<open>$1\<close> .. \<open>$10\<close>, named as the columns are (with
  the prefix \<open>col_\<close>).
\<close>

record Row =
  col_owner :: string
  col_name :: string
  col_category :: string
  col_description :: string
  col_html_url :: string
  col_homepage :: string
  col_topics :: string
  col_created_at :: string
  col_updated_at :: string
  col_uid :: int

text \<open>\<open>type jsonRepo struct\<close>; the fields carry a prefix, the JSON keys are in \<open>Marshal\<close>.\<close>

record jsonRepo =
  j_Owner :: string
  j_Name :: string
  j_Category :: string
  j_Description :: string
  j_HTMLURL :: string
  j_Homepage :: string
  j_Topics :: string
  j_CreatedAt :: string
  j_UpdatedAt :: string
  j_UID :: int

section \<open>The Transformer: the values \<open>insertRepos\<close> computes\<close>

text \<open>
  Lines 158 to 165, the loop over \<open>r.Data.Topics\<close>:
  \<^verbatim>\<open>
  var topics string
  for _, v := range r.Data.Topics {
      if len(topics) < 1 { topics = v } else { topics = fmt.Sprintf("%s,%s", topics, v) }
  }
  \<close>
\<close>

fun topics_loop :: "string \<Rightarrow> string list \<Rightarrow> string" where
  "topics_loop topics [] = topics"
| "topics_loop topics (v # vs) =
     topics_loop (if length topics < 1 then v else topics @ '','' @ v) vs"

definition join_topics :: "string list \<Rightarrow> string" where
  "join_topics ts = topics_loop [] ts"

text \<open>
  \<open>appendInt(b, x, width)\<close> of package \<open>time\<close>: the decimal digits of \<open>x\<close>, with a
  leading \<open>-\<close> when \<open>x\<close> is negative, padded with zeros to at least \<open>width\<close> digits.
\<close>

definition digit :: "nat \<Rightarrow> char" where
  "digit d = ''0123456789'' ! d"

fun decimal :: "nat \<Rightarrow> string" where
  "decimal n = (if n < 10 then [digit n] else decimal (n div 10) @ [digit (n mod 10)])"

declare decimal.simps [simp del]

definition appendInt :: "int \<Rightarrow> nat \<Rightarrow> string" where
  "appendInt x width =
     (let ds = decimal (nat \<bar>x\<bar>)
      in (if x < 0 then ''-'' else []) @ replicate (width - length ds) (CHR ''0'') @ ds)"

text \<open>
  \<open>t.Format("2006-01-02")\<close>: the layout is the long year, \<open>-\<close>, the zero-padded month,
  \<open>-\<close>, the zero-padded day (\<open>appendInt(b, year, 4)\<close>, \<open>appendInt(b, int(month), 2)\<close>,
  \<open>appendInt(b, day, 2)\<close>).
\<close>

definition Format_date :: "Time \<Rightarrow> string" where
  "Format_date t =
     appendInt (Year t) 4 @ ''-'' @ appendInt (int (Month t)) 2 @ ''-'' @
     appendInt (int (Day t)) 2"

text \<open>Lines 150 to 168 and 187 to 197: the arguments of the insert statement.\<close>

definition insert_args :: "repo \<Rightarrow> Row" where
  "insert_args r =
     (case Cut (FullName (Data r)) ''/'' of
        (ownerBefore, nameAfter, _) \<Rightarrow>
     (case Cut (Description (Data r)) '':'' of
        (categoryBefore, descriptionAfter, _) \<Rightarrow>
       \<lparr>col_owner = ownerBefore,
        col_name = nameAfter,
        col_category = categoryBefore,
        col_description = descriptionAfter,
        col_html_url = HTMLURL (Data r),
        col_homepage = Homepage (Data r),
        col_topics = join_topics (Topics (Data r)),
        col_created_at = Format_date (CreatedAt (Data r)),
        col_updated_at = Format_date (UpdatedAt (Data r)),
        col_uid = ID (Data r)\<rparr>))"

section \<open>How a run ends\<close>

text \<open>
  \<open>log.Fatal\<close> and \<open>log.Fatalf\<close> end the process with status 1; each call site is a
  constructor of \<open>fatal\<close>, in the order of the source. A nil pointer dereference is a
  panic. A function of the program either returns, or ends the run in one of these ways.
  Two sites are never reached: \<open>RowsAffected\<close> of an executed insert has no error, and
  \<open>json.Marshal\<close> of strings and integers has none. In \<open>selectRepos\<close> the four sites of
  the read are \<open>UnableToSelectAll\<close> (line 216), \<open>ScanFailed\<close> (247), \<open>RowsCloseFailed\<close>
  (266) and \<open>RowsErrFailed\<close> (270).
\<close>

datatype fatal =
    FailedToLoadEnv
  | UnableToUseDsn
  | UnableToConnect
  | UnableToCreateTable
  | UnableToDropTable
  | FailedExecutingInsert
  | FailedWritingToDb
  | ExpectedOneRow
  | UnableToSelectAll
  | ScanFailed
  | RowsCloseFailed
  | RowsErrFailed
  | ErrorMarshaling
  | GithubListByOrg
  | GithubListByUser
  | GithubNoData

datatype 'a result = Return 'a | Fatal fatal | Panic

section \<open>The Fetcher: \<open>parseGH\<close> and \<open>ghRepos\<close>\<close>

text \<open>
  The fields of go-github's \<open>github.Repository\<close> that the program reads. All but
  \<open>Topics\<close> (a slice) are pointers, \<open>None\<close> when nil. \<open>github.Timestamp\<close> is a struct
  that embeds a \<open>time.Time\<close>.
\<close>

datatype Timestamp = Timestamp Time

record Repository =
  gh_ID :: "int option"
  gh_Name :: "string option"
  gh_FullName :: "string option"
  gh_Description :: "string option"
  gh_HTMLURL :: "string option"
  gh_Homepage :: "string option"
  gh_CreatedAt :: "Timestamp option"
  gh_UpdatedAt :: "Timestamp option"
  gh_Topics :: "string list"

text \<open>
  The accessors of go-github (\<open>github-accessors.go\<close>). Each takes the pointer to the
  repository, which may be nil, and returns the field or, when the pointer or the field
  is nil, the zero value: \<open>func (r *Repository) GetCreatedAt() Timestamp\<close> returns a
  \<open>Timestamp\<close> value, \<open>Timestamp{}\<close> when there is none.
\<close>

definition getter :: "(Repository \<Rightarrow> 'a option) \<Rightarrow> 'a \<Rightarrow> Repository option \<Rightarrow> 'a" where
  "getter field zero v =
     (case v of
        None \<Rightarrow> zero
      | Some r \<Rightarrow> (case field r of None \<Rightarrow> zero | Some x \<Rightarrow> x))"

definition GetID :: "Repository option \<Rightarrow> int" where
  "GetID = getter gh_ID 0"

definition GetName :: "Repository option \<Rightarrow> string" where
  "GetName = getter gh_Name []"

definition GetFullName :: "Repository option \<Rightarrow> string" where
  "GetFullName = getter gh_FullName []"

definition GetDescription :: "Repository option \<Rightarrow> string" where
  "GetDescription = getter gh_Description []"

definition GetHTMLURL :: "Repository option \<Rightarrow> string" where
  "GetHTMLURL = getter gh_HTMLURL []"

definition GetHomepage :: "Repository option \<Rightarrow> string" where
  "GetHomepage = getter gh_Homepage []"

definition GetCreatedAt :: "Repository option \<Rightarrow> Timestamp" where
  "GetCreatedAt = getter gh_CreatedAt (Timestamp zero_Time)"

definition GetUpdatedAt :: "Repository option \<Rightarrow> Timestamp" where
  "GetUpdatedAt = getter gh_UpdatedAt (Timestamp zero_Time)"

text \<open>
  \<open>func (t *Timestamp) GetTime() *time.Time\<close> of go-github (\<open>timestamp.go\<close>): nil for
  a nil receiver, the address of the embedded time otherwise. A pointer is modelled by
  the value it points to, \<open>None\<close> when nil.
\<close>

definition GetTime :: "Timestamp option \<Rightarrow> Time option" where
  "GetTime t = (case t of None \<Rightarrow> None | Some (Timestamp tm) \<Rightarrow> Some tm)"

text \<open>
  \<open>parseGH\<close>. \<open>timestampCA\<close> is a local variable holding the \<open>Timestamp\<close> value that
  \<open>GetCreatedAt\<close> returned, and \<open>timestampCA.GetTime()\<close> is called on its address (a
  method with a pointer receiver on an addressable variable). \<open>*pointerCA\<close> panics
  when the pointer is nil; so does the field selection \<open>v.Topics\<close> when \<open>v\<close> is nil. The
  variable \<open>repo\<close> is overwritten in each round and appended to \<open>arr\<close>.
\<close>

fun parseGH :: "repo \<Rightarrow> repo list \<Rightarrow> Repository option list \<Rightarrow> repo list result" where
  "parseGH repo arr [] = Return arr"
| "parseGH repo arr (v # ghData) =
     (let timestampCA = GetCreatedAt v;
          pointerCA = GetTime (Some timestampCA)
      in case pointerCA of
           None \<Rightarrow> Panic
         | Some createdAt \<Rightarrow>
     (let timestampUA = GetUpdatedAt v;
          pointerUA = GetTime (Some timestampUA)
      in case pointerUA of
           None \<Rightarrow> Panic
         | Some updatedAt \<Rightarrow>
     (case v of
        None \<Rightarrow> Panic
      | Some r \<Rightarrow>
          (let d = \<lparr>ID = GetID v,
                    FullName = GetFullName v,
                    Description = GetDescription v,
                    HTMLURL = GetHTMLURL v,
                    Homepage = GetHomepage v,
                    Topics = gh_Topics r,
                    CreatedAt = createdAt,
                    UpdatedAt = updatedAt\<rparr>;
               repo' = repo\<lparr>Name := GetName v, Data := d\<rparr>
           in parseGH repo' (arr @ [repo']) ghData))))"

text \<open>
  A listing request as \<open>ghRepos\<close> builds it: the method of \<open>gc.Repositories\<close>, the account
  name, and the options (\<open>Type\<close>, \<open>Sort\<close>, \<open>ListOptions{Page, PerPage}\<close>). The client is
  a function from the request to an error or the decoded page of repository pointers.
\<close>

datatype endpoint = ListByOrg | ListByUser

record Request =
  req_endpoint :: endpoint
  req_account :: string
  req_Type :: string
  req_Sort :: string
  req_Page :: int
  req_PerPage :: int

type_synonym client = "Request \<Rightarrow> string + Repository option list"

text \<open>
  \<open>ghRepos\<close> returns the requests it has sent (in order) beside its result.
\<close>

definition ghRepos :: "client \<Rightarrow> string \<Rightarrow> bool \<Rightarrow> Request list \<times> repo list result" where
  "ghRepos gc account isOrg =
     (let r = zero_repo;
          arr = [];
          listOpt = (1, 25)
      in if isOrg then
           (let opts = \<lparr>req_endpoint = ListByOrg, req_account = account,
                        req_Type = ''public'', req_Sort = ''created'',
                        req_Page = fst listOpt, req_PerPage = snd listOpt\<rparr>
            in ([opts],
                case gc opts of
                  Inl err \<Rightarrow> Fatal GithubListByOrg
                | Inr data \<Rightarrow>
                    if length data \<le> 0 then Fatal GithubNoData
                    else parseGH r arr data))
         else
           (let opts = \<lparr>req_endpoint = ListByUser, req_account = account,
                        req_Type = ''public'', req_Sort = ''created'',
                        req_Page = fst listOpt, req_PerPage = snd listOpt\<rparr>
            in ([opts],
                case gc opts of
                  Inl err \<Rightarrow> Fatal GithubListByUser
                | Inr data \<Rightarrow>
                    if length data \<le> 0 then Fatal GithubNoData
                    else parseGH r arr data)))"

section \<open>The Store\<close>

text \<open>
  The database holds the table \<open>repos\<close> or not (\<open>None\<close>). A stored row is the ten
  inserted values; the serial \<open>id\<close> that the server adds is scanned by \<open>selectRepos\<close>
  into a variable that is never read, and is left out. Rows are kept in the order of
  their insertion, which is the order \<open>select * from repos\<close> returns them in here.
\<close>

type_synonym database = "Row list option"

datatype stmt = Ping | DropTable | CreateTable | InsertRow Row | SelectAll

text \<open>
  What the run cannot decide by itself: whether \<open>.env\<close> loads, what the GitHub client
  answers, whether the DSN opens and the server answers the ping, which rows the server
  accepts (the \<open>VARCHAR\<close> lengths and the \<open>INT\<close> range of the schema), and how
  \<open>encoding/json\<close> writes a string literal (its escaping).

  The read of \<open>selectRepos\<close> runs under a deadline of five seconds and a context that
  an interrupt cancels, over a connection that can be lost. What happens to it is the
  world's too: whether \<open>QueryContext\<close> returns the rows (\<open>query_ok\<close>), whether
  \<open>rows.Scan\<close> converts a row into the eleven variables (\<open>scan_ok\<close>), whether
  \<open>rows.Close\<close> returns no error (\<open>close_ok\<close>), and whether the iteration breaks off
  with an error that \<open>rows.Err\<close> reports (\<open>rows_err = Some k\<close>: \<open>rows.Next\<close> is false
  after \<open>k\<close> rows, or after the last row when there are fewer) or runs to the end of
  the rows (\<open>None\<close>).
\<close>

record world =
  dotenv_ok :: bool
  github :: client
  open_ok :: bool
  ping_ok :: bool
  accepts :: "Row \<Rightarrow> bool"
  query_ok :: bool
  scan_ok :: "Row \<Rightarrow> bool"
  close_ok :: bool
  rows_err :: "nat option"
  json_string :: "string \<Rightarrow> string"

text \<open>
  The state of a run: the database, the statements handed to the pool so far, the
  requests sent to GitHub, and what has been written to standard output.
\<close>

record process =
  store :: database
  issued :: "stmt list"
  requests :: "Request list"
  stdout :: string

definition send :: "stmt \<Rightarrow> process \<Rightarrow> process" where
  "send q p = p\<lparr>issued := issued p @ [q]\<rparr>"

definition ping :: "world \<Rightarrow> process \<Rightarrow> unit result \<times> process" where
  "ping w p =
     (let p' = send Ping p
      in if ping_ok w then (Return (), p') else (Fatal UnableToConnect, p'))"

text \<open>\<open>CREATE TABLE repos (...)\<close> fails when the table exists.\<close>

definition createRepos :: "process \<Rightarrow> unit result \<times> process" where
  "createRepos p =
     (let p' = send CreateTable p
      in case store p' of
           Some t \<Rightarrow> (Fatal UnableToCreateTable, p')
         | None \<Rightarrow> (Return (), p'\<lparr>store := Some []\<rparr>))"

text \<open>\<open>DROP TABLE repos;\<close> fails when the table does not exist.\<close>

definition dropRepos :: "process \<Rightarrow> unit result \<times> process" where
  "dropRepos p =
     (let p' = send DropTable p
      in case store p' of
           None \<Rightarrow> (Fatal UnableToDropTable, p')
         | Some t \<Rightarrow> (Return (), p'\<lparr>store := None\<rparr>))"

text \<open>
  \<open>insertRepos\<close>: one insert statement of the computed values; an accepted insert
  affects one row, and the count is compared with 1.
\<close>

definition insertRepos :: "world \<Rightarrow> repo \<Rightarrow> process \<Rightarrow> unit result \<times> process" where
  "insertRepos w r p =
     (let row = insert_args r;
          p' = send (InsertRow row) p
      in case store p' of
           None \<Rightarrow> (Fatal FailedExecutingInsert, p')
         | Some t \<Rightarrow>
             if \<not> accepts w row then (Fatal FailedExecutingInsert, p')
             else
               (let p'' = p'\<lparr>store := Some (t @ [row])\<rparr>;
                    rows = (1 :: int)
                in if rows \<noteq> 1 then (Fatal ExpectedOneRow, p'') else (Return (), p'')))"

section \<open>The Exporter: \<open>selectRepos\<close>\<close>

text \<open>
  A slice is nil (\<open>None\<close>) or holds elements; \<open>append\<close> to a nil slice gives a slice of
  one element.
\<close>

definition append_slice :: "'a list option \<Rightarrow> 'a \<Rightarrow> 'a list option" where
  "append_slice sl x = (case sl of None \<Rightarrow> Some [x] | Some xs \<Rightarrow> Some (xs @ [x]))"

definition scan :: "Row \<Rightarrow> jsonRepo" where
  "scan row =
     \<lparr>j_Owner = col_owner row,
      j_Name = col_name row,
      j_Category = col_category row,
      j_Description = col_description row,
      j_HTMLURL = col_html_url row,
      j_Homepage = col_homepage row,
      j_Topics = col_topics row,
      j_CreatedAt = col_created_at row,
      j_UpdatedAt = col_updated_at row,
      j_UID = col_uid row\<rparr>"

text \<open>
  The loop over the rows that the iteration delivers:
  \<^verbatim>\<open>
  for rows.Next() {
      if err := rows.Scan(&id, &owner, ..., &uid); err != nil { log.Fatal(err) }
      repo := jsonRepo{Owner: owner, ..., UID: uid}
      repos = append(repos, repo)
  }
  \<close>
\<close>

fun scan_rows ::
  "(Row \<Rightarrow> bool) \<Rightarrow> jsonRepo list option \<Rightarrow> Row list \<Rightarrow> jsonRepo list option result" where
  "scan_rows ok repos [] = Return repos"
| "scan_rows ok repos (row # rest) =
     (if \<not> ok row then Fatal ScanFailed
      else scan_rows ok (append_slice repos (scan row)) rest)"

text \<open>
  \<open>json.Marshal(repos)\<close> for \<open>repos []jsonRepo\<close>. A struct is written as an object of
  its fields in their order, under the keys of the \<open>json\<close> tags; a string by the string
  encoder \<open>q\<close>; an \<open>int\<close> in decimal; a slice as \<open>[\<close>, its elements separated by
  \<open>,\<close>, \<open>]\<close>; a nil slice as \<open>null\<close>.
\<close>

definition itoa :: "int \<Rightarrow> string" where
  "itoa x = (if x < 0 then ''-'' else []) @ decimal (nat \<bar>x\<bar>)"

definition json_key :: "string \<Rightarrow> string" where
  "json_key k = [CHR 0x22] @ k @ [CHR 0x22] @ '':''"

definition Marshal_jsonRepo :: "(string \<Rightarrow> string) \<Rightarrow> jsonRepo \<Rightarrow> string" where
  "Marshal_jsonRepo q r =
     ''{'' @ json_key ''owner'' @ q (j_Owner r) @
     '','' @ json_key ''name'' @ q (j_Name r) @
     '','' @ json_key ''category'' @ q (j_Category r) @
     '','' @ json_key ''description'' @ q (j_Description r) @
     '','' @ json_key ''htmlurl'' @ q (j_HTMLURL r) @
     '','' @ json_key ''homepage'' @ q (j_Homepage r) @
     '','' @ json_key ''topics'' @ q (j_Topics r) @
     '','' @ json_key ''createdAt'' @ q (j_CreatedAt r) @
     '','' @ json_key ''updatedAt'' @ q (j_UpdatedAt r) @
     '','' @ json_key ''uid'' @ itoa (j_UID r) @ ''}''"

fun Marshal_elements :: "(string \<Rightarrow> string) \<Rightarrow> jsonRepo list \<Rightarrow> string" where
  "Marshal_elements q [] = []"
| "Marshal_elements q [r] = Marshal_jsonRepo q r"
| "Marshal_elements q (r # rs) = Marshal_jsonRepo q r @ '','' @ Marshal_elements q rs"

definition Marshal :: "(string \<Rightarrow> string) \<Rightarrow> jsonRepo list option \<Rightarrow> string" where
  "Marshal q repos =
     (case repos of
        None \<Rightarrow> ''null''
      | Some rs \<Rightarrow> ''['' @ Marshal_elements q rs @ '']'')"

text \<open>
  \<open>selectRepos\<close>. The query fails when the table does not exist or the world has it
  fail; the loop ends the run at the first row that does not scan; \<open>rows.Close\<close> and
  \<open>rows.Err\<close> are checked in this order after the loop; \<open>fmt.Println\<close> writes the
  marshalled bytes and a newline.
\<close>

definition selectRepos :: "world \<Rightarrow> process \<Rightarrow> string result \<times> process" where
  "selectRepos w p =
     (let p' = send SelectAll p
      in case store p' of
           None \<Rightarrow> (Fatal UnableToSelectAll, p')
         | Some table \<Rightarrow>
             if \<not> query_ok w then (Fatal UnableToSelectAll, p')
             else
               (let delivered = (case rows_err w of None \<Rightarrow> table | Some k \<Rightarrow> take k table)
                in case scan_rows (scan_ok w) None delivered of
                     Fatal e \<Rightarrow> (Fatal e, p')
                   | Panic \<Rightarrow> (Panic, p')
                   | Return repos \<Rightarrow>
                       if \<not> close_ok w then (Fatal RowsCloseFailed, p')
                       else if rows_err w \<noteq> None then (Fatal RowsErrFailed, p')
                       else
                         (let jsonData = Marshal (json_string w) repos
                          in (Return jsonData,
                              p'\<lparr>stdout := stdout p' @ jsonData @ [CHR 0x0A]\<rparr>))))"

section \<open>The run: \<open>main\<close>\<close>

definition seq ::
  "unit result \<times> process \<Rightarrow> (process \<Rightarrow> 'a result \<times> process) \<Rightarrow> 'a result \<times> process" where
  "seq r f =
     (case r of
        (Return u, p) \<Rightarrow> f p
      | (Fatal e, p) \<Rightarrow> (Fatal e, p)
      | (Panic, p) \<Rightarrow> (Panic, p))"

text \<open>The loop \<open>for _, v := range allRepos { insertRepos(ctx, v) }\<close>.\<close>

fun insert_loop :: "world \<Rightarrow> repo list \<Rightarrow> process \<Rightarrow> unit result \<times> process" where
  "insert_loop w [] p = (Return (), p)"
| "insert_loop w (v # vs) p = seq (insertRepos w v p) (insert_loop w vs)"

definition main :: "world \<Rightarrow> database \<Rightarrow> unit result \<times> process" where
  "main w db =
     (let p = \<lparr>store = db, issued = [], requests = [], stdout = []\<rparr>
      in if \<not> dotenv_ok w then (Fatal FailedToLoadEnv, p)
         else
           (case ghRepos (github w) ''permalik'' False of
              (reqs, fetched) \<Rightarrow>
                (let p1 = p\<lparr>requests := reqs\<rparr>
                 in case fetched of
                      Fatal e \<Rightarrow> (Fatal e, p1)
                    | Panic \<Rightarrow> (Panic, p1)
                    | Return permalikRepos \<Rightarrow>
                        (let allRepos =
                               (if length permalikRepos > 0 then [] @ permalikRepos else [])
                         in if \<not> open_ok w then (Fatal UnableToUseDsn, p1)
                            else
                              seq (seq (seq (seq (ping w p1) dropRepos) createRepos)
                                     (insert_loop w allRepos))
                                (\<lambda>p. case selectRepos w p of
                                        (Return jsonData, p') \<Rightarrow> (Return (), p')
                                      | (Fatal e, p') \<Rightarrow> (Fatal e, p')
                                      | (Panic, p') \<Rightarrow> (Panic, p'))))))"

section \<open>Notions the claims are stated with\<close>

text \<open>
  The pattern \<open>YYYY-MM-DD\<close>: ten characters, digits but for a \<open>-\<close> at the fifth and
  the eighth place; and the number that a string of digits denotes.
\<close>

definition is_digit :: "char \<Rightarrow> bool" where
  "is_digit c \<longleftrightarrow> c \<in> set ''0123456789''"

definition matches_YYYY_MM_DD :: "string \<Rightarrow> bool" where
  "matches_YYYY_MM_DD s \<longleftrightarrow>
     length s = 10 \<and>
     list_all is_digit (take 4 s) \<and> s ! 4 = CHR ''-'' \<and>
     list_all is_digit (take 2 (drop 5 s)) \<and> s ! 7 = CHR ''-'' \<and>
     list_all is_digit (drop 8 s)"

definition digit_val :: "char \<Rightarrow> nat" where
  "digit_val c = length (takeWhile (\<lambda>x. x \<noteq> c) ''0123456789'')"

definition read_decimal :: "string \<Rightarrow> nat" where
  "read_decimal s = foldl (\<lambda>a c. 10 * a + digit_val c) 0 s"

text \<open>
  The record that one round of the loop of \<open>parseGH\<close> builds from a repository pointer
  \<open>v\<close> that is not nil: the round overwrites both fields of \<open>repo\<close>.
\<close>

definition time_of :: "Timestamp \<Rightarrow> Time" where
  "time_of ts = (case ts of Timestamp tm \<Rightarrow> tm)"

definition parsed :: "Repository option \<Rightarrow> repo" where
  "parsed v =
     \<lparr>Name = GetName v,
      Data = \<lparr>ID = GetID v,
              FullName = GetFullName v,
              Description = GetDescription v,
              HTMLURL = GetHTMLURL v,
              Homepage = GetHomepage v,
              Topics = (case v of None \<Rightarrow> [] | Some r \<Rightarrow> gh_Topics r),
              CreatedAt = time_of (GetCreatedAt v),
              UpdatedAt = time_of (GetUpdatedAt v)\<rparr>\<rparr>"

text \<open>The one request of \<open>ghRepos\<close> for an account.\<close>

definition listing_request :: "string \<Rightarrow> bool \<Rightarrow> Request" where
  "listing_request account isOrg =
     \<lparr>req_endpoint = (if isOrg then ListByOrg else ListByUser), req_account = account,
      req_Type = ''public'', req_Sort = ''created'', req_Page = 1, req_PerPage = 25\<rparr>"

text \<open>
  Concrete inputs for the examples: a repository listed without timestamps, a client
  that answers every request with a given page, a world in which everything
  succeeds and strings are written between double quotes without escaping, and two
  rows.
\<close>

definition bare_repository :: Repository where
  "bare_repository =
     \<lparr>gh_ID = Some 7, gh_Name = Some ''widget'', gh_FullName = Some ''acme/widget'',
      gh_Description = Some ''tools:a widget'', gh_HTMLURL = None, gh_Homepage = None,
      gh_CreatedAt = None, gh_UpdatedAt = None, gh_Topics = [''a'', ''b'']\<rparr>"

definition world_of :: "Repository option list \<Rightarrow> world" where
  "world_of page =
     \<lparr>dotenv_ok = True, github = (\<lambda>req. Inr page), open_ok = True, ping_ok = True,
      accepts = (\<lambda>row. True), query_ok = True, scan_ok = (\<lambda>row. True), close_ok = True,
      rows_err = None, json_string = (\<lambda>s. [CHR 0x22] @ s @ [CHR 0x22])\<rparr>"

definition example_row :: Row where
  "example_row =
     \<lparr>col_owner = ''acme'', col_name = ''widget'', col_category = ''tools'',
      col_description = ''a widget'', col_html_url = [], col_homepage = [],
      col_topics = ''a,b'', col_created_at = ''2020-01-02'',
      col_updated_at = ''2021-02-03'', col_uid = 1\<rparr>"

definition other_row :: Row where
  "other_row =
     \<lparr>col_owner = ''acme'', col_name = ''gadget'', col_category = ''no category'',
      col_description = [], col_html_url = ''https://example.org/gadget'',
      col_homepage = ''https://gadget.example.org'', col_topics = [],
      col_created_at = ''2019-12-31'', col_updated_at = ''2022-10-09'', col_uid = 1205\<rparr>"

section \<open>Lemmas about the string functions\<close>

lemma Index_Nil_sep: "Index [] sep = (if sep = [] then Some 0 else None)"
  by (simp add: Index.simps)

lemma Index_Cons:
  "Index (x # t) sep = (if prefix sep (x # t) then Some 0 else map_option Suc (Index t sep))"
  by (subst Index.simps) simp

lemma Index_Some_split:
  "Index s sep = Some i \<Longrightarrow> take i s @ sep @ drop (i + length sep) s = s"
proof (induction s arbitrary: i)
  case Nil
  then show ?case by (simp add: Index_Nil_sep split: if_splits)
next
  case (Cons x t)
  show ?case
  proof (cases "prefix sep (x # t)")
    case True
    with Cons.prems have "i = 0" by (simp add: Index_Cons)
    moreover from True obtain r where "x # t = sep @ r" by (auto simp: prefix_def)
    ultimately show ?thesis by simp
  next
    case False
    with Cons.prems obtain j where j: "Index t sep = Some j" "i = Suc j"
      by (auto simp: Index_Cons)
    from Cons.IH [OF j(1)] j(2) show ?thesis by simp
  qed
qed

lemma Index_Some_bound: "Index s sep = Some i \<Longrightarrow> i + length sep \<le> length s"
proof (induction s arbitrary: i)
  case Nil
  then show ?case by (simp add: Index_Nil_sep split: if_splits)
next
  case (Cons x t)
  show ?case
  proof (cases "prefix sep (x # t)")
    case True
    with Cons.prems have "i = 0" by (simp add: Index_Cons)
    with prefix_length_le [OF True] show ?thesis by simp
  next
    case False
    with Cons.prems obtain j where j: "Index t sep = Some j" "i = Suc j"
      by (auto simp: Index_Cons)
    from Cons.IH [OF j(1)] j(2) show ?thesis by simp
  qed
qed

lemma Index_Some_first:
  "Index s sep = Some i \<Longrightarrow> j < i \<Longrightarrow> \<not> prefix sep (drop j s)"
proof (induction s arbitrary: i j)
  case Nil
  then show ?case by (simp add: Index_Nil_sep split: if_splits)
next
  case (Cons x t)
  from Cons.prems have np: "\<not> prefix sep (x # t)"
    by (auto simp: Index_Cons split: if_splits)
  with Cons.prems obtain k where k: "Index t sep = Some k" "i = Suc k"
    by (auto simp: Index_Cons)
  show ?case
  proof (cases j)
    case 0
    with np show ?thesis by simp
  next
    case (Suc j')
    with Cons.prems k have "j' < k" by simp
    from Cons.IH [OF k(1) this] Suc show ?thesis by simp
  qed
qed

lemma Index_None_byte: "Index s [c] = None \<longleftrightarrow> c \<notin> set s"
  by (induction s) (auto simp: Index_Nil_sep Index_Cons)

lemma Index_Some_byte:
  "Index s [c] = Some i \<Longrightarrow> c \<notin> set (take i s)"
proof
  assume i: "Index s [c] = Some i" and "c \<in> set (take i s)"
  then obtain j where j: "j < length (take i s)" "take i s ! j = c"
    by (auto simp: in_set_conv_nth)
  then have "j < i" "j < length s" "s ! j = c" by auto
  then have "prefix [c] (drop j s)"
    by (simp add: Cons_nth_drop_Suc [symmetric])
  with Index_Some_first [OF i \<open>j < i\<close>] show False by simp
qed


lemma Cut_byte_found:
  assumes "c \<in> set s"
  obtains b a where "Cut s [c] = (b, a, True)" "b @ [c] @ a = s" "c \<notin> set b"
proof -
  from assms obtain i where i: "Index s [c] = Some i"
    using Index_None_byte [of s c] by (cases "Index s [c]") auto
  show ?thesis
  proof (rule that)
    show "Cut s [c] = (take i s, drop (i + length [c]) s, True)"
      by (simp add: Cut_def i)
    show "take i s @ [c] @ drop (i + length [c]) s = s"
      by (rule Index_Some_split [OF i])
    show "c \<notin> set (take i s)"
      by (rule Index_Some_byte [OF i])
  qed
qed

lemma Cut_byte_not_found: "c \<notin> set s \<Longrightarrow> Cut s [c] = (s, [], False)"
  by (simp add: Cut_def Index_None_byte [THEN iffD2])

lemma insert_args_owner_name:
  "Cut (FullName (Data r)) ''/'' = (b, a, f) \<Longrightarrow>
   col_owner (insert_args r) = b \<and> col_name (insert_args r) = a"
  by (simp add: insert_args_def split: prod.splits)

lemma insert_args_category_description:
  "Cut (Description (Data r)) '':'' = (b, a, f) \<Longrightarrow>
   col_category (insert_args r) = b \<and> col_description (insert_args r) = a"
  by (simp add: insert_args_def split: prod.splits)

lemma topics_loop_nonempty:
  "acc \<noteq> [] \<Longrightarrow> topics_loop acc ts = acc @ concat (map (\<lambda>v. '','' @ v) ts)"
  by (induction ts arbitrary: acc) auto

lemma join_topics_Cons:
  "t \<noteq> [] \<Longrightarrow> join_topics (t # ts) = t @ concat (map (\<lambda>v. '','' @ v) ts)"
  by (simp add: join_topics_def topics_loop_nonempty)

lemma Index_byte_append:
  "c \<notin> set t \<Longrightarrow> Index (t @ c # rest) [c] = Some (length t)"
  by (induction t) (auto simp: Index_Cons)

lemma Split_no_sep: "c \<notin> set s \<Longrightarrow> Split s c = [s]"
  by (subst Split.simps) (simp add: Index_None_byte [THEN iffD2])

lemma Split_pieces:
  "c \<notin> set t \<Longrightarrow> \<forall>v \<in> set ts. c \<notin> set v \<Longrightarrow>
   Split (t @ concat (map (\<lambda>v. [c] @ v) ts)) c = t # ts"
proof (induction ts arbitrary: t)
  case Nil
  then show ?case by (simp add: Split_no_sep)
next
  case (Cons v vs)
  from Cons.prems have v: "c \<notin> set v" and vs: "\<forall>u \<in> set vs. c \<notin> set u" by auto
  let ?rest = "v @ concat (map (\<lambda>v. [c] @ v) vs)"
  have "Split (t @ c # ?rest) c = t # Split ?rest c"
    by (subst Split.simps) (simp add: Index_byte_append [OF Cons.prems(1)])
  also have "Split ?rest c = v # vs" by (rule Cons.IH [OF v vs])
  finally show ?case by simp
qed

section \<open>Lemmas about the decimal digits\<close>

lemma lt10_cases:
  "d < (10::nat) \<Longrightarrow>
   d = 0 \<or> d = 1 \<or> d = 2 \<or> d = 3 \<or> d = 4 \<or> d = 5 \<or> d = 6 \<or> d = 7 \<or> d = 8 \<or> d = 9"
  by arith

lemma is_digit_digit: "d < 10 \<Longrightarrow> is_digit (digit d)"
  unfolding is_digit_def digit_def by (rule nth_mem) simp

lemma digit_val_digit: "d < 10 \<Longrightarrow> digit_val (digit d) = d"
  by (drule lt10_cases) (auto simp: digit_val_def digit_def)

lemma digit_0: "digit 0 = CHR ''0''"
  by (simp add: digit_def)

lemma decimal_1: "n < 10 \<Longrightarrow> decimal n = [digit n]"
  by (subst decimal.simps) simp

lemma decimal_2:
  "10 \<le> n \<Longrightarrow> n < 100 \<Longrightarrow> decimal n = [digit (n div 10), digit (n mod 10)]"
  by (subst decimal.simps) (simp add: decimal_1)

lemma decimal_3:
  "100 \<le> n \<Longrightarrow> n < 1000 \<Longrightarrow>
   decimal n = [digit (n div 10 div 10), digit (n div 10 mod 10), digit (n mod 10)]"
  by (subst decimal.simps) (simp add: decimal_2)

lemma decimal_4:
  "1000 \<le> n \<Longrightarrow> n < 10000 \<Longrightarrow>
   decimal n = [digit (n div 10 div 10 div 10), digit (n div 10 div 10 mod 10),
                digit (n div 10 mod 10), digit (n mod 10)]"
  by (subst decimal.simps) (simp add: decimal_3)

lemma appendInt_nonneg:
  "0 \<le> x \<Longrightarrow>
   appendInt x w = replicate (w - length (decimal (nat x))) (CHR ''0'') @ decimal (nat x)"
  by (simp add: appendInt_def Let_def)

lemma appendInt_2:
  assumes "0 \<le> x" "x < 100"
  shows "appendInt x 2 = [digit (nat x div 10), digit (nat x mod 10)]"
proof (cases "nat x < 10")
  case True
  then show ?thesis by (simp add: appendInt_nonneg [OF assms(1)] decimal_1 digit_0)
next
  case False
  with assms have "10 \<le> nat x" "nat x < 100" by auto
  from decimal_2 [OF this] show ?thesis by (simp add: appendInt_nonneg [OF assms(1)])
qed

lemma appendInt_4:
  assumes "0 \<le> x" "x < 10000"
  shows "appendInt x 4 =
           [digit (nat x div 10 div 10 div 10), digit (nat x div 10 div 10 mod 10),
            digit (nat x div 10 mod 10), digit (nat x mod 10)]"
proof -
  note a = appendInt_nonneg [OF assms(1)]
  consider "nat x < 10" | "10 \<le> nat x" "nat x < 100" | "100 \<le> nat x" "nat x < 1000"
    | "1000 \<le> nat x" "nat x < 10000"
    using assms by linarith
  then show ?thesis
  proof cases
    case 1
    then show ?thesis
      by (simp add: a decimal_1 digit_0 numeral_3_eq_3)
  next
    case 2
    then have "nat x div 10 < 10" by simp
    with decimal_2 [OF 2] show ?thesis
      by (simp add: a digit_0 numeral_2_eq_2)
  next
    case 3
    then have "nat x div 10 div 10 < 10" by simp
    with decimal_3 [OF 3] show ?thesis
      by (simp add: a digit_0)
  next
    case 4
    from decimal_4 [OF this] show ?thesis by (simp add: a)
  qed
qed

lemma read_decimal_2:
  "n < 100 \<Longrightarrow> read_decimal [digit (n div 10), digit (n mod 10)] = n"
  by (simp add: read_decimal_def digit_val_digit)

lemma read_decimal_4:
  assumes "n < 10000"
  shows "read_decimal [digit (n div 10 div 10 div 10), digit (n div 10 div 10 mod 10),
                       digit (n div 10 mod 10), digit (n mod 10)] = n"
proof -
  from assms have "n div 10 div 10 div 10 < 10" by simp
  then show ?thesis
    by (simp add: read_decimal_def digit_val_digit)
qed

lemma read_decimal_snoc: "read_decimal (s @ [c]) = 10 * read_decimal s + digit_val c"
  by (simp add: read_decimal_def)

lemma read_decimal_decimal: "read_decimal (decimal n) = n"
proof (induction n rule: decimal.induct)
  case (1 n)
  show ?case
  proof (cases "n < 10")
    case True
    then show ?thesis by (simp add: decimal_1 read_decimal_def digit_val_digit)
  next
    case False
    then have "decimal n = decimal (n div 10) @ [digit (n mod 10)]"
      by (subst decimal.simps) simp
    with 1 False show ?thesis by (simp add: read_decimal_snoc digit_val_digit)
  qed
qed

lemma decimal_digits: "list_all is_digit (decimal n)"
proof (induction n rule: decimal.induct)
  case (1 n)
  show ?case
  proof (cases "n < 10")
    case True
    then show ?thesis by (simp add: decimal_1 is_digit_digit)
  next
    case False
    then have "decimal n = decimal (n div 10) @ [digit (n mod 10)]"
      by (subst decimal.simps) simp
    with 1 False show ?thesis by (simp add: is_digit_digit)
  qed
qed

lemma decimal_10000: "decimal 10000 = ''10000''"
  by (subst decimal.simps) (simp add: decimal_4 digit_def)

lemma appendInt_10000: "appendInt 10000 4 = ''10000''"
  by (simp add: appendInt_nonneg decimal_10000)

lemma Format_date_digits:
  assumes "calendar_Time t" and "0 \<le> Year t" and "Year t \<le> 9999"
  shows "Format_date t =
      [digit (nat (Year t) div 10 div 10 div 10), digit (nat (Year t) div 10 div 10 mod 10),
       digit (nat (Year t) div 10 mod 10), digit (nat (Year t) mod 10), CHR ''-'',
       digit (Month t div 10), digit (Month t mod 10), CHR ''-'',
       digit (Day t div 10), digit (Day t mod 10)]"
proof -
  from assms(2,3) have y: "appendInt (Year t) 4 =
      [digit (nat (Year t) div 10 div 10 div 10), digit (nat (Year t) div 10 div 10 mod 10),
       digit (nat (Year t) div 10 mod 10), digit (nat (Year t) mod 10)]"
    by (intro appendInt_4) auto
  from assms(1) have m: "appendInt (int (Month t)) 2 =
      [digit (Month t div 10), digit (Month t mod 10)]"
    using appendInt_2 [of "int (Month t)"] by (simp add: calendar_Time_def)
  from assms(1) have d: "appendInt (int (Day t)) 2 =
      [digit (Day t div 10), digit (Day t mod 10)]"
    using appendInt_2 [of "int (Day t)"] by (simp add: calendar_Time_def)
  show ?thesis by (simp add: Format_date_def y m d)
qed

section \<open>Lemmas about the Fetcher, the Exporter and the run\<close>

lemma GetTime_Some: "GetTime (Some ts) = Some (time_of ts)"
  by (cases ts) (simp add: GetTime_def time_of_def)

lemma parseGH_parsed:
  "None \<notin> set ghData \<Longrightarrow> parseGH r arr ghData = Return (arr @ map parsed ghData)"
proof (induction ghData arbitrary: r arr)
  case Nil
  then show ?case by simp
next
  case (Cons v vs)
  from Cons.prems obtain x where v: "v = Some x" and vs: "None \<notin> set vs" by (cases v) auto
  show ?case
    by (simp add: v GetTime_Some Cons.IH [OF vs] parsed_def Let_def)
qed

lemma parseGH_nil_entry: "None \<in> set ghData \<Longrightarrow> parseGH r arr ghData = Panic"
proof (induction ghData arbitrary: r arr)
  case Nil
  then show ?case by simp
next
  case (Cons v vs)
  show ?case
  proof (cases v)
    case None
    then show ?thesis by (simp add: GetTime_Some Let_def)
  next
    case (Some x)
    with Cons.prems have "None \<in> set vs" by simp
    from Cons.IH [OF this] show ?thesis by (simp add: Some GetTime_Some Let_def)
  qed
qed

lemma parseGH_cases:
  "parseGH r arr ghData =
     (if None \<in> set ghData then Panic else Return (arr @ map parsed ghData))"
  by (simp add: parseGH_parsed parseGH_nil_entry)

lemma ghRepos_eq:
  "ghRepos gc account isOrg =
     ([listing_request account isOrg],
      case gc (listing_request account isOrg) of
        Inl err \<Rightarrow> Fatal (if isOrg then GithubListByOrg else GithubListByUser)
      | Inr page \<Rightarrow>
          if page = [] then Fatal GithubNoData
          else if None \<in> set page then Panic
          else Return (map parsed page))"
  by (simp add: ghRepos_def listing_request_def parseGH_cases Let_def split: sum.splits)

lemma scan_rows_Some:
  "list_all ok rows \<Longrightarrow> scan_rows ok (Some acc) rows = Return (Some (acc @ map scan rows))"
  by (induction rows arbitrary: acc) (simp_all add: append_slice_def)

lemma scan_rows_None:
  "list_all ok rows \<Longrightarrow>
   scan_rows ok None rows = Return (if rows = [] then None else Some (map scan rows))"
  by (cases rows) (simp_all add: append_slice_def scan_rows_Some)

lemma scan_rows_fail: "\<not> list_all ok rows \<Longrightarrow> scan_rows ok repos rows = Fatal ScanFailed"
  by (induction rows arbitrary: repos) auto

lemma scan_rows_cases:
  "scan_rows ok None rows =
     (if list_all ok rows then Return (if rows = [] then None else Some (map scan rows))
      else Fatal ScanFailed)"
  by (simp add: scan_rows_None scan_rows_fail)

lemma Marshal_elements_Cons:
  "Marshal_elements q (r # rs) =
     Marshal_jsonRepo q r @ concat (map (\<lambda>x. '','' @ Marshal_jsonRepo q x) rs)"
  by (induction rs arbitrary: r) simp_all

lemma Marshal_jsonRepo_scan:
  \<open>Marshal_jsonRepo q (scan row) =
     ''{"owner":'' @ q (col_owner row) @
     '',"name":'' @ q (col_name row) @
     '',"category":'' @ q (col_category row) @
     '',"description":'' @ q (col_description row) @
     '',"htmlurl":'' @ q (col_html_url row) @
     '',"homepage":'' @ q (col_homepage row) @
     '',"topics":'' @ q (col_topics row) @
     '',"createdAt":'' @ q (col_created_at row) @
     '',"updatedAt":'' @ q (col_updated_at row) @
     '',"uid":'' @ (if col_uid row < 0 then ''-'' else []) @ decimal (nat \<bar>col_uid row\<bar>) @
     ''}''\<close>
  by (simp add: Marshal_jsonRepo_def scan_def json_key_def itoa_def)

lemma Marshal_rows:
  "rows \<noteq> [] \<Longrightarrow>
   Marshal q (Some (map scan rows)) =
     ''['' @ Marshal_jsonRepo q (scan (hd rows)) @
     concat (map (\<lambda>row. '','' @ Marshal_jsonRepo q (scan row)) (tl rows)) @ '']''"
  by (cases rows) (simp_all add: Marshal_def Marshal_elements_Cons comp_def)

lemma selectRepos_read:
  assumes "store p = Some rows"
    and "query_ok w" and "list_all (scan_ok w) rows" and "close_ok w" and "rows_err w = None"
  shows "selectRepos w p =
           (Return (Marshal (json_string w) (if rows = [] then None else Some (map scan rows))),
            p\<lparr>issued := issued p @ [SelectAll],
              stdout := stdout p @
                Marshal (json_string w) (if rows = [] then None else Some (map scan rows)) @
                [CHR 0x0A]\<rparr>)"
proof -
  let ?p' = "send SelectAll p"
  from assms(1) have table: "store ?p' = Some rows"
    by (simp add: send_def)
  from assms(3) have slice:
    "scan_rows (scan_ok w) None rows = Return (if rows = [] then None else Some (map scan rows))"
    by (rule scan_rows_None)
  show ?thesis
    by (simp add: selectRepos_def Let_def table slice assms(2,4,5)) (simp add: send_def)
qed

lemma selectRepos_read_fails:
  assumes "store p = Some rows"
    and "\<not> (query_ok w \<and> list_all (scan_ok w) rows \<and> close_ok w \<and> rows_err w = None)"
  shows "\<exists>e. selectRepos w p = (Fatal e, send SelectAll p)"
proof -
  let ?p' = "send SelectAll p"
  from assms(1) have table: "store ?p' = Some rows"
    by (simp add: send_def)
  show ?thesis
  proof (cases "rows_err w")
    case None
    with assms(2) table show ?thesis
      by (auto simp: selectRepos_def Let_def scan_rows_cases)
  next
    case (Some k)
    with table show ?thesis
      by (auto simp: selectRepos_def Let_def scan_rows_cases)
  qed
qed

lemma selectRepos_Return:
  assumes "selectRepos w p = (Return js, p')" and "store p = Some rows"
  shows "js = Marshal (json_string w) (if rows = [] then None else Some (map scan rows)) \<and>
         store p' = store p \<and> stdout p' = stdout p @ js @ [CHR 0x0A]"
proof (cases "query_ok w \<and> list_all (scan_ok w) rows \<and> close_ok w \<and> rows_err w = None")
  case True
  with selectRepos_read [OF assms(2), of w] assms(1) show ?thesis by auto
next
  case False
  from selectRepos_read_fails [OF assms(2) False] assms(1) show ?thesis by auto
qed

text \<open>
  A run that returns has fetched a page that is not empty, and has exported exactly
  the rows made from that page, in its order.
\<close>

lemma seq_Return:
  "seq r f = (Return u, p') \<longleftrightarrow> (\<exists>p. r = (Return (), p) \<and> f p = (Return u, p'))"
  by (cases r; cases "fst r") (auto simp: seq_def)

lemma ping_Return:
  "ping w p = (Return u, p') \<Longrightarrow> store p' = store p \<and> stdout p' = stdout p"
  by (auto simp: ping_def send_def Let_def split: if_splits)

lemma dropRepos_Return:
  "dropRepos p = (Return u, p') \<Longrightarrow> store p' = None \<and> stdout p' = stdout p"
  by (auto simp: dropRepos_def send_def Let_def split: option.splits)

lemma createRepos_Return:
  "createRepos p = (Return u, p') \<Longrightarrow> store p = None \<and> store p' = Some [] \<and> stdout p' = stdout p"
  by (auto simp: createRepos_def send_def Let_def split: option.splits)

lemma insertRepos_Return:
  "insertRepos w r p = (Return u, p') \<Longrightarrow> store p = Some t \<Longrightarrow>
   store p' = Some (t @ [insert_args r]) \<and> stdout p' = stdout p"
  by (auto simp: insertRepos_def send_def Let_def split: option.splits if_splits)

lemma insertRepos_Return_store:
  "insertRepos w r p = (Return u, p') \<Longrightarrow> \<exists>t. store p = Some t"
  by (auto simp: insertRepos_def send_def Let_def split: option.splits if_splits)

lemma insert_loop_Return:
  "insert_loop w rs p = (Return u, p') \<Longrightarrow> store p = Some t \<Longrightarrow>
   store p' = Some (t @ map insert_args rs) \<and> stdout p' = stdout p"
proof (induction rs arbitrary: p t)
  case Nil
  then show ?case by simp
next
  case (Cons r rs)
  from Cons.prems(1) obtain q where q: "insertRepos w r p = (Return (), q)"
    and l: "insert_loop w rs q = (Return u, p')"
    by (auto simp: seq_Return)
  from insertRepos_Return [OF q Cons.prems(2)]
  have s: "store q = Some (t @ [insert_args r])" and o: "stdout q = stdout p" by simp_all
  from Cons.IH [OF l s] o show ?case by simp
qed

lemma main_Return:
  assumes "main w db = (Return (), pf)"
  shows "\<exists>page. github w (listing_request ''permalik'' False) = Inr page \<and> page \<noteq> [] \<and>
           None \<notin> set page \<and>
           store pf = Some (map (\<lambda>v. insert_args (parsed v)) page) \<and>
           stdout pf = Marshal (json_string w)
                         (Some (map (\<lambda>v. scan (insert_args (parsed v))) page)) @
                       [CHR 0x0A]"
proof -
  let ?req = "listing_request ''permalik'' False"
  let ?p0 = "\<lparr>store = db, issued = [], requests = [?req], stdout = []\<rparr>"
  from assms obtain page where page: "github w ?req = Inr page" "page \<noteq> []" "None \<notin> set page"
    by (auto simp: main_def ghRepos_eq Let_def split: if_splits sum.splits)
  let ?rs = "map parsed page"
  from assms page have run:
    "seq (seq (seq (seq (ping w ?p0) dropRepos) createRepos) (insert_loop w ?rs))
       (\<lambda>p. case selectRepos w p of
               (Return jsonData, p') \<Rightarrow> (Return (), p')
             | (Fatal e, p') \<Rightarrow> (Fatal e, p')
             | (Panic, p') \<Rightarrow> (Panic, p')) = (Return (), pf)"
    by (auto simp: main_def ghRepos_eq Let_def split: if_splits)
  then obtain p1 p2 p3 p4 where
      s1: "ping w ?p0 = (Return (), p1)" and s2: "dropRepos p1 = (Return (), p2)"
      and s3: "createRepos p2 = (Return (), p3)"
      and s4: "insert_loop w ?rs p3 = (Return (), p4)"
      and s5: "(case selectRepos w p4 of
               (Return jsonData, p') \<Rightarrow> (Return (), p')
             | (Fatal e, p') \<Rightarrow> (Fatal e, p')
             | (Panic, p') \<Rightarrow> (Panic, p')) = (Return (), pf)"
    by (auto simp: seq_Return)
  from ping_Return [OF s1] dropRepos_Return [OF s2] createRepos_Return [OF s3]
  have p3: "store p3 = Some []" "stdout p3 = []" by simp_all
  from insert_loop_Return [OF s4 p3(1)] p3(2)
  have p4: "store p4 = Some (map insert_args ?rs)" "stdout p4 = []" by simp_all
  from page(2) have ne: "map insert_args ?rs \<noteq> []" by simp
  from s5 obtain js where s6: "selectRepos w p4 = (Return js, pf)"
    by (cases "selectRepos w p4"; cases "fst (selectRepos w p4)") auto
  from selectRepos_Return [OF s6 p4(1)] p4 ne
  have "store pf = Some (map insert_args ?rs) \<and>
        stdout pf = Marshal (json_string w) (Some (map scan (map insert_args ?rs))) @ [CHR 0x0A]"
    by simp
  with page show ?thesis by (simp add: comp_def)
qed

section \<open>The claims\<close>

subsection \<open>C1: joining the topics and splitting them again\<close>

text \<open>
  C1, as amended. For every list of topic labels that is not empty, in which no label
  contains \<open>,\<close> and whose first label is not empty (or which holds one label only),
  joining the labels as \<open>insertRepos\<close> does and splitting the result at \<open>,\<close> gives the
  list back.
\<close>

theorem topics_round_trip:
  assumes "ts \<noteq> []" and "hd ts \<noteq> [] \<or> length ts = 1"
    and "\<forall>t \<in> set ts. CHR '','' \<notin> set t"
  shows "Split (join_topics ts) (CHR '','') = ts"
proof (cases ts)
  case Nil
  with assms(1) show ?thesis by simp
next
  case (Cons t vs)
  from assms(3) Cons have t: "CHR '','' \<notin> set t"
    and vs: "\<forall>v \<in> set vs. CHR '','' \<notin> set v"
    by auto
  show ?thesis
  proof (cases "t = []")
    case True
    with assms(2) Cons have "vs = []" by simp
    with True Cons show ?thesis by (simp add: join_topics_def Split_no_sep)
  next
    case False
    from Split_pieces [OF t vs] show ?thesis
      by (simp add: Cons join_topics_Cons [OF False])
  qed
qed

theorem topics_round_trip_witness:
  "[''go'', ''cli'', ''''] \<noteq> [] \<and> hd [''go'', ''cli'', ''''] \<noteq> [] \<and>
   CHR '','' \<notin> set (concat [''go'', ''cli'', '''']) \<and>
   Split (join_topics [''go'', ''cli'', '''']) (CHR '','') = [''go'', ''cli'', '''']"
  using topics_round_trip [of "[''go'', ''cli'', '''']"] by simp

text \<open>
  The claim as stated fails at the empty list, which is joined to the empty string and
  split into one empty label, and at a list that starts with an empty label, which the
  loop drops (it takes an empty accumulator for the first round).
\<close>

theorem topics_round_trip_counterexample:
  "CHR '','' \<notin> set (concat ([] :: string list)) \<and>
   Split (join_topics []) (CHR '','') = [[]] \<and>
   CHR '','' \<notin> set (concat ['''', ''a'']) \<and>
   Split (join_topics ['''', ''a'']) (CHR '','') = [''a'']"
  by (simp add: join_topics_def Split.simps Index_Cons Index_Nil_sep)

subsection \<open>C2: category and description\<close>

text \<open>
  C2. When the raw description contains \<open>:\<close>, the category, \<open>:\<close> and the description
  make up the raw description, and the category contains no \<open>:\<close> (the cut is at the
  first one). When it contains none, the category is the whole raw description and
  the description is empty.
\<close>

theorem description_split:
  "(CHR '':'' \<in> set (Description (Data r)) \<longrightarrow>
      col_category (insert_args r) @ '':'' @ col_description (insert_args r)
        = Description (Data r) \<and>
      CHR '':'' \<notin> set (col_category (insert_args r))) \<and>
   (CHR '':'' \<notin> set (Description (Data r)) \<longrightarrow>
      col_category (insert_args r) = Description (Data r) \<and>
      col_description (insert_args r) = [])"
proof (intro conjI impI)
  assume "CHR '':'' \<in> set (Description (Data r))"
  then obtain b a where c: "Cut (Description (Data r)) '':'' = (b, a, True)"
    and s: "b @ '':'' @ a = Description (Data r)" and n: "CHR '':'' \<notin> set b"
    by (rule Cut_byte_found)
  from insert_args_category_description [OF c] s
  show "col_category (insert_args r) @ '':'' @ col_description (insert_args r)
        = Description (Data r)" by simp
  from insert_args_category_description [OF c] n
  show "CHR '':'' \<notin> set (col_category (insert_args r))" by simp
next
  assume "CHR '':'' \<notin> set (Description (Data r))"
  then have c: "Cut (Description (Data r)) '':'' = (Description (Data r), [], False)"
    by (rule Cut_byte_not_found)
  from insert_args_category_description [OF c]
  show "col_category (insert_args r) = Description (Data r)"
    and "col_description (insert_args r) = []" by simp_all
qed

theorem description_split_witness:
  "CHR '':'' \<in> set (Description (Data (parsed (Some bare_repository)))) \<and>
   col_category (insert_args (parsed (Some bare_repository))) @ '':'' @
     col_description (insert_args (parsed (Some bare_repository))) = ''tools:a widget'' \<and>
   CHR '':'' \<notin> set (Description (Data zero_repo)) \<and>
   col_category (insert_args zero_repo) = [] \<and>
   col_description (insert_args zero_repo) = []"
proof -
  have d: "Description (Data (parsed (Some bare_repository))) = ''tools:a widget''"
    by (simp add: parsed_def bare_repository_def GetDescription_def getter_def)
  have z: "Description (Data zero_repo) = []"
    by (simp add: zero_repo_def)
  from description_split [of "parsed (Some bare_repository)"] description_split [of zero_repo]
  show ?thesis by (simp add: d z)
qed

subsection \<open>C3: owner and name\<close>

text \<open>
  C3. When the full name contains \<open>/\<close>, the owner, \<open>/\<close> and the name make up the full
  name, and the owner contains no \<open>/\<close> (the cut is at the first one).
\<close>

theorem name_split:
  assumes "CHR ''/'' \<in> set (FullName (Data r))"
  shows "col_owner (insert_args r) @ ''/'' @ col_name (insert_args r) = FullName (Data r) \<and>
         CHR ''/'' \<notin> set (col_owner (insert_args r))"
proof -
  from assms obtain b a where c: "Cut (FullName (Data r)) ''/'' = (b, a, True)"
    and s: "b @ ''/'' @ a = FullName (Data r)" and n: "CHR ''/'' \<notin> set b"
    by (rule Cut_byte_found)
  from insert_args_owner_name [OF c] s n show ?thesis by simp
qed

theorem name_split_witness:
  "CHR ''/'' \<in> set (FullName (Data (parsed (Some bare_repository)))) \<and>
   col_owner (insert_args (parsed (Some bare_repository))) @ ''/'' @
     col_name (insert_args (parsed (Some bare_repository))) = ''acme/widget''"
proof -
  have d: "FullName (Data (parsed (Some bare_repository))) = ''acme/widget''"
    by (simp add: parsed_def bare_repository_def GetFullName_def getter_def)
  from name_split [of "parsed (Some bare_repository)"] show ?thesis by (simp add: d)
qed

subsection \<open>C4: the end-to-end example\<close>

text \<open>
  C4. The raw record with id 1, full name \<open>acme/widget\<close>, description
  \<open>tools:a widget\<close>, topics \<open>a\<close> and \<open>b\<close>, created at 2020-01-02T03:04:05Z and updated at
  2021-02-03T04:05:06Z is inserted as owner \<open>acme\<close>, name \<open>widget\<close>, category \<open>tools\<close>,
  description \<open>a widget\<close>, topics \<open>a,b\<close>, dates \<open>2020-01-02\<close> and \<open>2021-02-03\<close>, uid 1;
  the two URLs, whatever they are, pass through.
\<close>

theorem end_to_end_example:
  "insert_args
     \<lparr>Name = n,
      Data = \<lparr>ID = 1, FullName = ''acme/widget'', Description = ''tools:a widget'',
              HTMLURL = u, Homepage = h, Topics = [''a'', ''b''],
              CreatedAt = \<lparr>Year = 2020, Month = 1, Day = 2, Hour = 3, Minute = 4,
                           Second = 5, Nanosecond = 0, ZoneOffset = 0\<rparr>,
              UpdatedAt = \<lparr>Year = 2021, Month = 2, Day = 3, Hour = 4, Minute = 5,
                           Second = 6, Nanosecond = 0, ZoneOffset = 0\<rparr>\<rparr>\<rparr>
   = \<lparr>col_owner = ''acme'', col_name = ''widget'', col_category = ''tools'',
      col_description = ''a widget'', col_html_url = u, col_homepage = h,
      col_topics = ''a,b'', col_created_at = ''2020-01-02'',
      col_updated_at = ''2021-02-03'', col_uid = 1\<rparr>"
proof -
  have c1: "Cut ''acme/widget'' ''/'' = (''acme'', ''widget'', True)"
    by (simp add: Cut_def Index_Cons Index_Nil_sep)
  have c2: "Cut ''tools:a widget'' '':'' = (''tools'', ''a widget'', True)"
    by (simp add: Cut_def Index_Cons Index_Nil_sep)
  have t: "join_topics [''a'', ''b''] = ''a,b''"
    by (simp add: join_topics_def)
  show ?thesis
    by (simp add: insert_args_def c1 c2 t Format_date_def appendInt_2 appendInt_4 digit_def)
qed

subsection \<open>C5: the formatted dates\<close>

text \<open>
  C5, as amended. For every timestamp whose year is from 0 to 9999, the formatted date
  matches \<open>YYYY-MM-DD\<close>, its three groups of digits read as the year, the month and
  the day of the timestamp, and it does not depend on the time of day or on the zone
  offset.
\<close>

theorem date_truncation:
  assumes "calendar_Time t" and "0 \<le> Year t" and "Year t \<le> 9999"
  shows "matches_YYYY_MM_DD (Format_date t) \<and>
         int (read_decimal (take 4 (Format_date t))) = Year t \<and>
         read_decimal (take 2 (drop 5 (Format_date t))) = Month t \<and>
         read_decimal (drop 8 (Format_date t)) = Day t \<and>
         Format_date (t\<lparr>Hour := hh, Minute := mi, Second := ss, Nanosecond := ns,
                         ZoneOffset := z\<rparr>) = Format_date t"
proof -
  note f = Format_date_digits [OF assms]
  from assms(2,3) have ny: "nat (Year t) < 10000" by auto
  from assms(1) have nm: "Month t < 100" and nd: "Day t < 100"
    by (auto simp: calendar_Time_def)
  have "matches_YYYY_MM_DD (Format_date t)"
    using ny nm nd by (simp add: f matches_YYYY_MM_DD_def is_digit_digit)
  moreover have "int (read_decimal (take 4 (Format_date t))) = Year t"
    using read_decimal_4 [OF ny] assms(2) by (simp add: f)
  moreover have "read_decimal (take 2 (drop 5 (Format_date t))) = Month t"
    using read_decimal_2 [OF nm] by (simp add: f)
  moreover have "read_decimal (drop 8 (Format_date t)) = Day t"
    using read_decimal_2 [OF nd] by (simp add: f)
  moreover have "Format_date (t\<lparr>Hour := hh, Minute := mi, Second := ss, Nanosecond := ns,
                         ZoneOffset := z\<rparr>) = Format_date t"
    by (simp add: Format_date_def)
  ultimately show ?thesis by blast
qed

theorem date_truncation_witness:
  "calendar_Time
     \<lparr>Year = 2020, Month = 1, Day = 2, Hour = 3, Minute = 4, Second = 5, Nanosecond = 0,
      ZoneOffset = 0\<rparr> \<and>
   matches_YYYY_MM_DD
     (Format_date
        \<lparr>Year = 2020, Month = 1, Day = 2, Hour = 3, Minute = 4, Second = 5,
         Nanosecond = 0, ZoneOffset = 0\<rparr>) \<and>
   read_decimal
     (drop 8 (Format_date
        \<lparr>Year = 2020, Month = 1, Day = 2, Hour = 3, Minute = 4, Second = 5,
         Nanosecond = 0, ZoneOffset = 0\<rparr>)) = 2"
proof -
  let ?t = "\<lparr>Year = 2020, Month = 1, Day = 2, Hour = 3, Minute = 4, Second = 5,
             Nanosecond = 0, ZoneOffset = 0\<rparr>"
  have c: "calendar_Time ?t" by (simp add: calendar_Time_def)
  have y: "0 \<le> Year ?t" "Year ?t \<le> 9999" by simp_all
  from date_truncation [OF c y] c show ?thesis by simp
qed

text \<open>
  The claim as stated fails for a timestamp of the year 10000: its date is written with
  five digits of year, eleven characters in all.
\<close>

theorem date_truncation_counterexample:
  "calendar_Time
     \<lparr>Year = 10000, Month = 1, Day = 1, Hour = 0, Minute = 0, Second = 0, Nanosecond = 0,
      ZoneOffset = 0\<rparr> \<and>
   Format_date
     \<lparr>Year = 10000, Month = 1, Day = 1, Hour = 0, Minute = 0, Second = 0, Nanosecond = 0,
      ZoneOffset = 0\<rparr> = ''10000-01-01'' \<and>
   \<not> matches_YYYY_MM_DD ''10000-01-01''"
  by (simp add: calendar_Time_def Format_date_def appendInt_2 appendInt_10000 digit_def
      matches_YYYY_MM_DD_def)

subsection \<open>C6: an empty fetch\<close>

text \<open>
  C6. When the page that GitHub returns for \<open>permalik\<close> is empty, the run ends in
  \<open>log.Fatalf\<close> inside \<open>ghRepos\<close> (or earlier, when \<open>.env\<close> does not load): no statement is
  handed to the pool, the database is as it was and nothing is written to standard
  output. \<open>ghRepos\<close> itself never returns an empty list.
\<close>

theorem empty_fetch_aborts:
  assumes "github w (listing_request ''permalik'' False) = Inr []"
  shows "fst (main w db) = Fatal (if dotenv_ok w then GithubNoData else FailedToLoadEnv) \<and>
         issued (snd (main w db)) = [] \<and>
         store (snd (main w db)) = db \<and>
         stdout (snd (main w db)) = [] \<and>
         snd (ghRepos gc account isOrg) \<noteq> Return []"
proof -
  have g: "ghRepos (github w) ''permalik'' False =
             ([listing_request ''permalik'' False], Fatal GithubNoData)"
    by (simp add: ghRepos_eq assms)
  have m: "main w db =
             (if dotenv_ok w
              then (Fatal GithubNoData,
                    \<lparr>store = db, issued = [],
                     requests = [listing_request ''permalik'' False], stdout = []\<rparr>)
              else (Fatal FailedToLoadEnv,
                    \<lparr>store = db, issued = [], requests = [], stdout = []\<rparr>))"
    by (simp add: main_def g)
  have r: "snd (ghRepos gc account isOrg) \<noteq> Return []"
    by (simp add: ghRepos_eq split: sum.splits)
  from m r show ?thesis by simp
qed

theorem empty_fetch_aborts_witness:
  "github (world_of []) (listing_request ''permalik'' False) = Inr [] \<and>
   main (world_of []) (Some [example_row]) =
     (Fatal GithubNoData,
      \<lparr>store = Some [example_row], issued = [],
       requests = [listing_request ''permalik'' False], stdout = []\<rparr>)"
proof -
  have h: "github (world_of []) (listing_request ''permalik'' False) = Inr []"
    by (simp add: world_of_def)
  have d: "dotenv_ok (world_of [])" by (simp add: world_of_def)
  have q: "requests (snd (main (world_of []) (Some [example_row]))) =
             [listing_request ''permalik'' False]"
    by (simp add: main_def ghRepos_eq h d)
  from empty_fetch_aborts [OF h, of "Some [example_row]"] d q h
  show ?thesis by (cases "main (world_of []) (Some [example_row])") auto
qed

subsection \<open>C7: one request for one page\<close>

text \<open>
  C7. For every client, account and kind of account, \<open>ghRepos\<close> sends exactly one
  request: the listing of the account's public repositories sorted by creation, page 1
  of pages of 25. What it returns, when it returns, is the records of that one page,
  one for each entry and in the same order.
\<close>

theorem single_page_request:
  "fst (ghRepos gc account isOrg) = [listing_request account isOrg] \<and>
   req_account (listing_request account isOrg) = account \<and>
   req_Sort (listing_request account isOrg) = ''created'' \<and>
   req_Page (listing_request account isOrg) = 1 \<and>
   req_PerPage (listing_request account isOrg) = 25 \<and>
   (\<forall>rs. snd (ghRepos gc account isOrg) = Return rs \<longrightarrow>
      (\<exists>page. gc (listing_request account isOrg) = Inr page \<and> rs = map parsed page))"
proof -
  let ?req = "listing_request account isOrg"
  have sent: "fst (ghRepos gc account isOrg) = [?req]"
    by (simp add: ghRepos_eq)
  have opts: "req_account ?req = account" "req_Sort ?req = ''created''"
    "req_Page ?req = 1" "req_PerPage ?req = 25"
    by (simp_all add: listing_request_def)
  have page: "\<exists>page. gc ?req = Inr page \<and> rs = map parsed page"
    if ret: "snd (ghRepos gc account isOrg) = Return rs" for rs
  proof (cases "gc ?req")
    case (Inl err)
    with ret show ?thesis by (simp add: ghRepos_eq)
  next
    case (Inr data)
    with ret show ?thesis by (simp add: ghRepos_eq split: if_splits)
  qed
  from sent opts page show ?thesis by blast
qed

theorem single_page_request_witness:
  "ghRepos (github (world_of [Some bare_repository])) ''permalik'' False =
     ([listing_request ''permalik'' False], Return [parsed (Some bare_repository)])"
proof -
  let ?gc = "github (world_of [Some bare_repository])"
  have r: "snd (ghRepos ?gc ''permalik'' False) = Return [parsed (Some bare_repository)]"
    by (simp add: ghRepos_eq world_of_def)
  from single_page_request [of ?gc "''permalik''" False] r
  show ?thesis by (cases "ghRepos ?gc ''permalik'' False") simp
qed

subsection \<open>C8: the exported snapshot\<close>

text \<open>
  C8, as amended. For every table \<open>repos\<close> that holds at least one row: when the read
  succeeds (the query, the scan of every row, the closing of the rows and the
  iteration report no error), \<open>selectRepos\<close> returns, and writes to standard output
  with a newline, one JSON array: \<open>[\<close>, one object for each row in the order read,
  separated by \<open>,\<close>, and \<open>]\<close>; each object has the keys \<open>owner\<close>, \<open>name\<close>, \<open>category\<close>,
  \<open>description\<close>, \<open>htmlurl\<close>, \<open>homepage\<close>, \<open>topics\<close>, \<open>createdAt\<close>, \<open>updatedAt\<close> and \<open>uid\<close>,
  in this order, with the values of the row's columns, the first nine as strings and
  the last as a number (a \<open>-\<close> when it is negative, and the decimal digits of its
  absolute value, which \<open>read_decimal_decimal\<close> and \<open>decimal_digits\<close> read back). When the
  read fails, the run ends in \<open>log.Fatal\<close> and nothing is written.
\<close>

theorem export_json_array:
  assumes \<open>store p = Some rows\<close> and \<open>rows \<noteq> []\<close>
  shows
    \<open>let q = json_string w;
         element = (\<lambda>row.
           ''{"owner":'' @ q (col_owner row) @
           '',"name":'' @ q (col_name row) @
           '',"category":'' @ q (col_category row) @
           '',"description":'' @ q (col_description row) @
           '',"htmlurl":'' @ q (col_html_url row) @
           '',"homepage":'' @ q (col_homepage row) @
           '',"topics":'' @ q (col_topics row) @
           '',"createdAt":'' @ q (col_created_at row) @
           '',"updatedAt":'' @ q (col_updated_at row) @
           '',"uid":'' @ (if col_uid row < 0 then ''-'' else []) @
             decimal (nat \<bar>col_uid row\<bar>) @ ''}'');
         snapshot =
           ''['' @ element (hd rows) @ concat (map (\<lambda>row. '','' @ element row) (tl rows)) @ '']''
     in (query_ok w \<and> list_all (scan_ok w) rows \<and> close_ok w \<and> rows_err w = None \<longrightarrow>
           selectRepos w p =
             (Return snapshot,
              p\<lparr>issued := issued p @ [SelectAll],
                stdout := stdout p @ snapshot @ [CHR 0x0A]\<rparr>)) \<and>
        (\<not> (query_ok w \<and> list_all (scan_ok w) rows \<and> close_ok w \<and> rows_err w = None) \<longrightarrow>
           (\<exists>e. fst (selectRepos w p) = Fatal e) \<and>
           stdout (snd (selectRepos w p)) = stdout p)\<close>
proof -
  let ?ok = "query_ok w \<and> list_all (scan_ok w) rows \<and> close_ok w \<and> rows_err w = None"
  have bytes: "Marshal (json_string w) (if rows = [] then None else Some (map scan rows)) =
      ''['' @ Marshal_jsonRepo (json_string w) (scan (hd rows)) @
      concat (map (\<lambda>row. '','' @ Marshal_jsonRepo (json_string w) (scan row)) (tl rows)) @ '']''"
    using assms(2) by (simp add: Marshal_rows)
  have good: "selectRepos w p =
      (Return (Marshal (json_string w) (if rows = [] then None else Some (map scan rows))),
       p\<lparr>issued := issued p @ [SelectAll],
         stdout := stdout p @
           Marshal (json_string w) (if rows = [] then None else Some (map scan rows)) @
           [CHR 0x0A]\<rparr>)" if ?ok
    using that by (intro selectRepos_read [OF assms(1)]) simp_all
  have bad: "(\<exists>e. fst (selectRepos w p) = Fatal e) \<and> stdout (snd (selectRepos w p)) = stdout p"
    if "\<not> ?ok"
  proof -
    from selectRepos_read_fails [OF assms(1) that]
    obtain e where "selectRepos w p = (Fatal e, send SelectAll p)" ..
    then show ?thesis by (simp add: send_def)
  qed
  from good bad show ?thesis
    unfolding Let_def bytes Marshal_jsonRepo_scan by blast
qed

theorem export_json_array_witness:
  \<open>store \<lparr>store = Some [example_row, other_row], issued = [], requests = [], stdout = []\<rparr>
     = Some [example_row, other_row] \<and>
   fst (selectRepos (world_of [])
          \<lparr>store = Some [example_row, other_row], issued = [], requests = [], stdout = []\<rparr>) =
     Return (''[{"owner":"acme","name":"widget","category":"tools",'' @
             ''"description":"a widget","htmlurl":"","homepage":"","topics":"a,b",'' @
             ''"createdAt":"2020-01-02","updatedAt":"2021-02-03","uid":1},'' @
             ''{"owner":"acme","name":"gadget","category":"no category",'' @
             ''"description":"","htmlurl":"https://example.org/gadget",'' @
             ''"homepage":"https://gadget.example.org","topics":"",'' @
             ''"createdAt":"2019-12-31","updatedAt":"2022-10-09","uid":1205}]'')\<close>
proof -
  let ?p = "\<lparr>store = Some [example_row, other_row], issued = [], requests = [], stdout = []\<rparr>"
  have table: "store ?p = Some [example_row, other_row]" by simp
  have rows: "[example_row, other_row] \<noteq> []" by simp
  have read: "query_ok (world_of []) \<and> list_all (scan_ok (world_of [])) [example_row, other_row]
      \<and> close_ok (world_of []) \<and> rows_err (world_of []) = None"
    by (simp add: world_of_def)
  have uids: "decimal (Suc 0) = ''1''" "decimal 1205 = ''1205''"
    by (simp_all add: decimal_1 decimal_4 digit_def)
  from export_json_array [OF table rows, of "world_of []"] read
  show ?thesis
    by (simp add: Let_def world_of_def example_row_def other_row_def uids)
qed

text \<open>
  The claim as stated fails for the empty table, also when the read succeeds: \<open>repos\<close>
  stays the nil slice, which is marshalled as \<open>null\<close>. And for a table with rows whose
  query fails, the run ends in \<open>log.Fatal\<close> with nothing written.
\<close>

theorem export_json_array_counterexample:
  "selectRepos (world_of [])
     \<lparr>store = Some [], issued = [], requests = [], stdout = []\<rparr> =
   (Return ''null'',
    \<lparr>store = Some [], issued = [SelectAll], requests = [],
     stdout = ''null'' @ [CHR 0x0A]\<rparr>) \<and>
   ''null'' \<noteq> ''[]'' \<and>
   selectRepos ((world_of [])\<lparr>query_ok := False\<rparr>)
     \<lparr>store = Some [example_row], issued = [], requests = [], stdout = []\<rparr> =
   (Fatal UnableToSelectAll,
    \<lparr>store = Some [example_row], issued = [SelectAll], requests = [], stdout = []\<rparr>)"
  by (simp add: selectRepos_def send_def Marshal_def world_of_def)

subsection \<open>C9: a full name without a slash\<close>

text \<open>
  C9. When the full name contains no \<open>/\<close>, the owner is the whole full name and the
  name is empty.
\<close>

theorem name_without_slash:
  assumes "CHR ''/'' \<notin> set (FullName (Data r))"
  shows "col_owner (insert_args r) = FullName (Data r) \<and> col_name (insert_args r) = []"
proof -
  from assms have "Cut (FullName (Data r)) ''/'' = (FullName (Data r), [], False)"
    by (rule Cut_byte_not_found)
  from insert_args_owner_name [OF this] show ?thesis .
qed

theorem name_without_slash_witness:
  "CHR ''/'' \<notin> set (FullName (Data (parsed (Some (bare_repository\<lparr>gh_FullName := Some ''widget''\<rparr>))))) \<and>
   col_owner (insert_args (parsed (Some (bare_repository\<lparr>gh_FullName := Some ''widget''\<rparr>))))
     = ''widget'' \<and>
   col_name (insert_args (parsed (Some (bare_repository\<lparr>gh_FullName := Some ''widget''\<rparr>))))
     = []"
proof -
  let ?r = "parsed (Some (bare_repository\<lparr>gh_FullName := Some ''widget''\<rparr>))"
  have d: "FullName (Data ?r) = ''widget''"
    by (simp add: parsed_def GetFullName_def getter_def)
  from name_without_slash [of ?r] show ?thesis by (simp add: d)
qed

subsection \<open>C10: the timestamps in \<open>parseGH\<close>\<close>

text \<open>
  C10, as amended. \<open>parseGH\<close> dereferences the pointers that \<open>GetTime\<close> returns without
  a nil guard, and these pointers are never nil: each is the address of the time inside
  the \<open>Timestamp\<close> value that \<open>GetCreatedAt\<close> or \<open>GetUpdatedAt\<close> returned. For every
  listing without a nil entry \<open>parseGH\<close> returns, with one record for each repository,
  whether the repositories carry timestamps or not; for a repository without a
  timestamp the dereference is reached and yields the zero time.
\<close>

theorem parse_timestamps:
  "GetTime (Some ts) \<noteq> None \<and>
   (None \<notin> set ghData \<longrightarrow> parseGH r arr ghData = Return (arr @ map parsed ghData)) \<and>
   (gh_CreatedAt x = None \<longrightarrow> CreatedAt (Data (parsed (Some x))) = zero_Time) \<and>
   (gh_UpdatedAt x = None \<longrightarrow> UpdatedAt (Data (parsed (Some x))) = zero_Time)"
proof (intro conjI impI)
  show "GetTime (Some ts) \<noteq> None"
    by (simp add: GetTime_Some)
  show "parseGH r arr ghData = Return (arr @ map parsed ghData)" if "None \<notin> set ghData"
    using that by (rule parseGH_parsed)
  show "CreatedAt (Data (parsed (Some x))) = zero_Time" if "gh_CreatedAt x = None"
    using that by (simp add: parsed_def GetCreatedAt_def getter_def time_of_def)
  show "UpdatedAt (Data (parsed (Some x))) = zero_Time" if "gh_UpdatedAt x = None"
    using that by (simp add: parsed_def GetUpdatedAt_def getter_def time_of_def)
qed

theorem parse_timestamps_witness:
  "None \<notin> set [Some bare_repository] \<and> gh_CreatedAt bare_repository = None \<and>
   parseGH zero_repo [] [Some bare_repository] = Return [parsed (Some bare_repository)] \<and>
   CreatedAt (Data (parsed (Some bare_repository))) = zero_Time"
  using parse_timestamps [of _ "[Some bare_repository]" zero_repo "[]" bare_repository]
  by (simp add: bare_repository_def)

text \<open>
  The claim as stated fails for a listing of one repository that carries neither
  timestamp: the parse step returns.
\<close>

theorem parse_timestamps_counterexample:
  "gh_CreatedAt bare_repository = None \<and> gh_UpdatedAt bare_repository = None \<and>
   parseGH zero_repo [] [Some bare_repository] =
     Return
       [\<lparr>Name = ''widget'',
         Data = \<lparr>ID = 7, FullName = ''acme/widget'', Description = ''tools:a widget'',
                 HTMLURL = [], Homepage = [], Topics = [''a'', ''b''],
                 CreatedAt = zero_Time, UpdatedAt = zero_Time\<rparr>\<rparr>]"
  by (simp add: bare_repository_def GetTime_def GetCreatedAt_def GetUpdatedAt_def
      GetID_def GetName_def GetFullName_def GetDescription_def GetHTMLURL_def
      GetHomepage_def getter_def zero_repo_def Let_def)

end
